theory Spec2Isabelle
  imports Complex_Main "HOL-Library.Multiset"
begin

section \<open>Strings and numbers of the host language\<close>

text \<open>
  A name is a JavaScript string. It is modelled as a \<open>string\<close> whose characters are the
  code units below 256; the manager looks at no other property of a character than
  being white space, being a decimal digit, or being one of the two parentheses.
  \<open>String.prototype.trim\<close> removes white space and line terminators from both ends; in
  this range they are TAB, LF, VT, FF, CR, SPACE and NBSP.
\<close>

definition isSpace :: "char \<Rightarrow> bool" where
  "isSpace c \<longleftrightarrow>
     c \<in> set [CHR 0x09, CHR 0x0A, CHR 0x0B, CHR 0x0C, CHR 0x0D, CHR 0x20, CHR 0xA0]"

definition trim :: "string \<Rightarrow> string" where
  "trim s = rev (dropWhile isSpace (rev (dropWhile isSpace s)))"

text \<open>The class \<open>\d\<close> of a regular expression: the ten ASCII digits.\<close>

definition isDigit :: "char \<Rightarrow> bool" where
  "isDigit c \<longleftrightarrow> c \<in> set ''0123456789''"

text \<open>\<open>parseInt(ds, 10)\<close> on a string of digits: its value as a decimal numeral.\<close>

definition parseInt10 :: "string \<Rightarrow> nat" where
  "parseInt10 ds = foldl (\<lambda>a c. 10 * a + (of_char c - 48)) 0 ds"

text \<open>The decimal digits of an integer, as string concatenation prints a number.\<close>

fun numberToString :: "nat \<Rightarrow> string" where
  "numberToString n =
     (if n < 10 then [''0123456789'' ! n]
      else numberToString (n div 10) @ [''0123456789'' ! (n mod 10)])"

declare numberToString.simps [simp del]

text \<open>
  A JavaScript number is an IEEE 754 double. Every integer up to \<open>2 ^ 53\<close> is a double,
  \<open>parseInt\<close> and \<open>+\<close> are exact on them, and such a number prints as its decimal digits.
  \<open>2 ^ 53 + 1\<close> is not a double: it lies halfway between \<open>2 ^ 53\<close> and \<open>2 ^ 53 + 2\<close>, and
  the sum rounds to the neighbour with the even significand, which is \<open>2 ^ 53\<close>. Above
  \<open>2 ^ 53\<close> parsing rounds as well, the printed digits are the shortest ones that read
  back as the same double, and beyond twenty digits \<open>parseInt\<close> is left to the
  implementation: there this development does not follow the program, and says so
  with \<open>None\<close>.

  \<open>nextSuffix ds\<close> is the text of \<open>parseInt(ds, 10) + 1\<close>.
\<close>

definition MAX_EXACT :: nat where
  "MAX_EXACT = 2 ^ 53"

definition nextSuffix :: "string \<Rightarrow> string option" where
  "nextSuffix ds =
     (let n = parseInt10 ds
      in if n < MAX_EXACT then Some (numberToString (n + 1))
         else if n = MAX_EXACT then Some (numberToString n)
         else None)"

text \<open>
  The regular expression \<open>/[(]\d+[)]$/\<close>: the string ends with an opening parenthesis,
  one or more digits and a closing parenthesis. A match is returned as the text before
  it and its digits. The digits of a match are the longest run of digits before the
  closing parenthesis, since the character before them is the opening parenthesis.
\<close>

definition matchSuffix :: "string \<Rightarrow> (string \<times> string) option" where
  "matchSuffix s =
     (if s = [] \<or> last s \<noteq> CHR '')'' then None
      else
        let body = butlast s;
            ds = rev (takeWhile isDigit (rev body));
            front = rev (dropWhile isDigit (rev body))
        in if ds = [] \<or> front = [] \<or> last front \<noteq> CHR ''('' then None
           else Some (butlast front, ds))"

text \<open>
  What \<open>generateUniqueName\<close> does to \<open>uniqueName\<close> when it has found another symbol of
  that name: the number of an existing suffix is replaced by the next one, and a name
  without a suffix gets \<open>(2)\<close>.
\<close>

definition rename :: "string \<Rightarrow> string option" where
  "rename uniqueName =
     (case matchSuffix uniqueName of
        Some (front, ds) \<Rightarrow>
          map_option (\<lambda>n. front @ ''('' @ n @ '')'') (nextSuffix ds)
      | None \<Rightarrow> Some (uniqueName @ '' (2)''))"


section \<open>Symbols and the manager\<close>

text \<open>
  A \<open>TacticalSymbol\<close> is an object: two symbols with equal fields are still two symbols.
  Objects live in a heap and are named by their address; the placemark of a symbol is
  an object of its own, named by an address as well.
\<close>

type_synonym ref = nat

record symbol =
  sid :: string
  name :: string
  source :: string
  latitude :: rat
  longitude :: rat
  isMovable :: bool
  invalid :: bool
  placemark :: ref

text \<open>
  The item of \<open>localStorage\<close> under \<open>STORAGE_KEY_MARKERS\<close>, as \<open>JSON.parse\<close> sees it:
  no item (\<open>getItem\<close> returns \<open>null\<close>, which parses to \<open>null\<close>), a text that is not JSON
  (\<open>JSON.parse\<close> throws a \<open>SyntaxError\<close>), or the text of an array of marker objects.
\<close>

record marker =
  m_id :: string
  m_name :: string
  m_source :: string
  m_latitude :: rat
  m_longitude :: rat
  m_isMovable :: bool

datatype slot = Absent | Malformed | Records "marker list"

text \<open>
  The manager with what it reaches: the heap of symbols, the observable array
  \<open>symbols\<close>, the \<open>renderables\<close> of its layer, the calls of
  \<open>globe.selectController.doDeselect\<close> made so far, and the storage item.
\<close>

record manager =
  heap :: "ref \<Rightarrow> symbol"
  nextObj :: ref
  symbols :: "ref list"
  renderables :: "ref list"
  deselected :: "ref list"
  storage :: slot

datatype error = SyntaxError | TypeError

text \<open>
  How a call ends: it returns, it throws and leaves the manager in a state, or it goes
  through number arithmetic that is not exact. A call that never ends has no result at
  all, which is \<open>None\<close> below.
\<close>

datatype 'a result = Returns 'a | Throws error manager | Inexact


section \<open>Unique names\<close>

text \<open>
  One run of the \<open>for\<close> loop of \<open>generateUniqueName\<close>: \<open>isUnique\<close> is still true at its end
  (\<open>Unique\<close>), or another symbol had the name, \<open>uniqueName\<close> was changed and the loop
  was left (\<open>Collided\<close>), or the change needed arithmetic above \<open>MAX_EXACT\<close>
  (\<open>Unknown\<close>).
\<close>

datatype pass = Unique string | Collided string | Unknown

fun scanOthers :: "(ref \<Rightarrow> symbol) \<Rightarrow> ref \<Rightarrow> string \<Rightarrow> ref list \<Rightarrow> pass" where
  "scanOthers h symbol uniqueName [] = Unique uniqueName"
| "scanOthers h symbol uniqueName (otherSymbol # rest) =
     (if otherSymbol = symbol then scanOthers h symbol uniqueName rest
      else if name (h otherSymbol) = uniqueName then
        (case rename uniqueName of Some u \<Rightarrow> Collided u | None \<Rightarrow> Unknown)
      else scanOthers h symbol uniqueName rest)"

text \<open>The \<open>do ... while (!isUnique)\<close> loop.\<close>

partial_function (option) uniqueLoop ::
  "(ref \<Rightarrow> symbol) \<Rightarrow> ref list \<Rightarrow> ref \<Rightarrow> string \<Rightarrow> string result option" where
  "uniqueLoop h syms symbol uniqueName =
     (case scanOthers h symbol uniqueName syms of
        Unique u \<Rightarrow> Some (Returns u)
      | Collided u \<Rightarrow> uniqueLoop h syms symbol u
      | Unknown \<Rightarrow> Some Inexact)"

declare uniqueLoop.simps [code]

definition generateUniqueName :: "manager \<Rightarrow> ref \<Rightarrow> string result option" where
  "generateUniqueName st symbol =
     uniqueLoop (heap st) (symbols st) symbol (trim (name (heap st symbol)))"


section \<open>The subscriber of the observable array\<close>

text \<open>
  \<open>doEnsureUniqueName\<close> writes the generated name into the symbol.
\<close>

definition doEnsureUniqueName :: "ref \<Rightarrow> manager \<Rightarrow> manager result option" where
  "doEnsureUniqueName symbol st =
     (case generateUniqueName st symbol of
        None \<Rightarrow> None
      | Some (Returns u) \<Rightarrow>
          Some (Returns (st\<lparr>heap := (heap st)(symbol := (heap st symbol)\<lparr>name := u\<rparr>)\<rparr>))
      | Some (Throws e st') \<Rightarrow> Some (Throws e st')
      | Some Inexact \<Rightarrow> Some Inexact)"

text \<open>\<open>layer.addRenderable\<close> appends to the \<open>renderables\<close> of the layer.\<close>

definition doAddSymbolToLayer :: "ref \<Rightarrow> manager \<Rightarrow> manager" where
  "doAddSymbolToLayer symbol st =
     st\<lparr>renderables := renderables st @ [placemark (heap st symbol)]\<rparr>"

text \<open>
  The loop of \<open>doRemoveSymbolFromLayer\<close> splices the first renderable that is the
  placemark out of the array and stops.
\<close>

fun spliceFirst :: "ref \<Rightarrow> ref list \<Rightarrow> ref list" where
  "spliceFirst p [] = []"
| "spliceFirst p (x # xs) = (if x = p then xs else x # spliceFirst p xs)"

definition doRemoveSymbolFromLayer :: "ref \<Rightarrow> manager \<Rightarrow> manager" where
  "doRemoveSymbolFromLayer symbol st =
     st\<lparr>renderables := spliceFirst (placemark (heap st symbol)) (renderables st),
        deselected := deselected st @ [symbol]\<rparr>"

text \<open>
  A change record of Knockout's \<open>arrayChange\<close> event, with the fields the subscriber
  reads. \<open>moved\<close> is \<open>undefined\<close> (\<open>None\<close>) unless the record is half of a move, when it
  is the other index.
\<close>

datatype status = Added | Deleted | Retained

record change =
  status :: status
  cvalue :: ref
  moved :: "nat option"

definition onChange :: "change \<Rightarrow> manager \<Rightarrow> manager result option" where
  "onChange c st =
     (if status c = Added \<and> moved c = None then
        (case doEnsureUniqueName (cvalue c) st of
           Some (Returns st') \<Rightarrow> Some (Returns (doAddSymbolToLayer (cvalue c) st'))
         | r \<Rightarrow> r)
      else if status c = Deleted \<and> moved c = None then
        Some (Returns (doRemoveSymbolFromLayer (cvalue c) st))
      else Some (Returns st))"

text \<open>\<open>changes.forEach\<close>: the records in their order, until one does not return.\<close>

fun subscriber :: "change list \<Rightarrow> manager \<Rightarrow> manager result option" where
  "subscriber [] st = Some (Returns st)"
| "subscriber (c # cs) st =
     (case onChange c st of
        Some (Returns st') \<Rightarrow> subscriber cs st'
      | r \<Rightarrow> r)"


section \<open>The operations of the manager\<close>

text \<open>
  \<open>symbols.push\<close> appends the symbol and notifies the subscriber of one added record.
\<close>

definition addSymbol :: "ref \<Rightarrow> manager \<Rightarrow> manager result option" where
  "addSymbol symbol st =
     subscriber [\<lparr>status = Added, cvalue = symbol, moved = None\<rparr>]
       (st\<lparr>symbols := symbols st @ [symbol]\<rparr>)"

text \<open>
  \<open>symbols.remove\<close> of Knockout takes every occurrence of the object out of the array.
  When it has taken nothing out it notifies nobody; otherwise the subscriber gets one
  deleted record for each occurrence.
\<close>

definition removeSymbol :: "ref \<Rightarrow> manager \<Rightarrow> manager result option" where
  "removeSymbol symbol st =
     (let removedValues = filter (\<lambda>x. x = symbol) (symbols st)
      in if removedValues = [] then Some (Returns st)
         else subscriber
                (map (\<lambda>x. \<lparr>status = Deleted, cvalue = x, moved = None\<rparr>) removedValues)
                (st\<lparr>symbols := filter (\<lambda>x. x \<noteq> symbol) (symbols st)\<rparr>))"

text \<open>
  \<open>findSymbol\<close> starts its loop with \<open>len = this.symbols.length()\<close>. \<open>this.symbols\<close> is
  the observable, a function object, and not the array it holds (that is
  \<open>this.symbols()\<close>, as the other methods write). The \<open>length\<close> of a function object is
  the number of its declared parameters, a number; Knockout's observable declares none.
  Calling a value that is not a function throws a \<open>TypeError\<close>.
\<close>

datatype property = Number nat | Function "ref list \<Rightarrow> nat"

definition observable_length :: property where
  "observable_length = Number 0"

definition call :: "property \<Rightarrow> ref list \<Rightarrow> error + nat" where
  "call p this = (case p of Number n \<Rightarrow> Inl TypeError | Function f \<Rightarrow> Inr (f this))"

text \<open>The loop of \<open>findSymbol\<close> from index \<open>i\<close>, with \<open>len\<close> as it was computed.\<close>

function findFrom :: "manager \<Rightarrow> string \<Rightarrow> nat \<Rightarrow> nat \<Rightarrow> ref option" where
  "findFrom st ident i len =
     (if i < len \<and> i < length (symbols st) then
        (if sid (heap st (symbols st ! i)) = ident then Some (symbols st ! i)
         else findFrom st ident (i + 1) len)
      else None)"
  by pat_completeness auto
termination
  by (relation "measure (\<lambda>(st, ident, i, len). len - i)") auto

declare findFrom.simps [simp del]

definition findSymbol :: "string \<Rightarrow> manager \<Rightarrow> error + ref option" where
  "findSymbol ident st =
     (case call observable_length (symbols st) of
        Inl e \<Rightarrow> Inl e
      | Inr len \<Rightarrow> Inr (findFrom st ident 0 len))"


section \<open>Persistence\<close>

text \<open>
  \<open>saveSymbols\<close> copies six fields of every symbol that is not invalid and stores the
  JSON text of the array.
\<close>

definition toMarker :: "symbol \<Rightarrow> marker" where
  "toMarker s =
     \<lparr>m_id = sid s, m_name = name s, m_source = source s, m_latitude = latitude s,
      m_longitude = longitude s, m_isMovable = isMovable s\<rparr>"

definition saveSymbols :: "manager \<Rightarrow> manager" where
  "saveSymbols st =
     (let validSymbols =
        map (\<lambda>r. toMarker (heap st r)) (filter (\<lambda>r. \<not> invalid (heap st r)) (symbols st))
      in st\<lparr>storage := Records validSymbols\<rparr>)"

record position =
  p_latitude :: rat
  p_longitude :: rat
  p_altitude :: rat

record params =
  a_id :: string
  a_name :: string
  a_imageSource :: string
  a_isMovable :: bool

text \<open>
  Modelled from the spec: the constructor \<open>TacticalSymbol\<close> is not among the sources.
  Given the manager, a position and the parameters \<open>id\<close>, \<open>name\<close>, \<open>imageSource\<close> and
  \<open>isMovable\<close>, it produces a symbol with an attached visual representation. The new
  symbol and its placemark are new objects.
\<close>

definition TacticalSymbol :: "position \<Rightarrow> params \<Rightarrow> manager \<Rightarrow> ref \<times> manager" where
  "TacticalSymbol pos ps st =
     (let r = nextObj st;
          s = \<lparr>sid = a_id ps, name = a_name ps, source = a_imageSource ps,
               latitude = p_latitude pos, longitude = p_longitude pos,
               isMovable = a_isMovable ps, invalid = False, placemark = r + 1\<rparr>
      in (r, st\<lparr>heap := (heap st)(r := s), nextObj := r + 2\<rparr>))"

text \<open>The \<open>for\<close> loop of \<open>restoreSymbols\<close> over the parsed array.\<close>

fun restoreLoop :: "marker list \<Rightarrow> manager \<Rightarrow> manager result option" where
  "restoreLoop [] st = Some (Returns st)"
| "restoreLoop (a # array) st =
     (let pos = \<lparr>p_latitude = m_latitude a, p_longitude = m_longitude a, p_altitude = 0\<rparr>;
          ps = \<lparr>a_id = m_id a, a_name = m_name a, a_imageSource = m_source a,
                a_isMovable = m_isMovable a\<rparr>;
          (symbol, st1) = TacticalSymbol pos ps st
      in case addSymbol symbol st1 of
           Some (Returns st2) \<Rightarrow> restoreLoop array st2
         | r \<Rightarrow> r)"

text \<open>
  \<open>restoreSymbols\<close> has no handler around \<open>JSON.parse\<close>: what it throws reaches the
  caller. \<open>null\<close> is not truthy, and an empty array has length \<open>0\<close>.
\<close>

definition restoreSymbols :: "manager \<Rightarrow> manager result option" where
  "restoreSymbols st =
     (case storage st of
        Absent \<Rightarrow> Some (Returns st)
      | Malformed \<Rightarrow> Some (Throws SyntaxError st)
      | Records array \<Rightarrow>
          if array \<noteq> [] then restoreLoop array st else Some (Returns st))"


section \<open>Runs and example objects\<close>

text \<open>A sequence of \<open>addSymbol\<close> calls, each made when the one before has returned.\<close>

fun addSymbols :: "ref list \<Rightarrow> manager \<Rightarrow> manager result option" where
  "addSymbols [] st = Some (Returns st)"
| "addSymbols (r # rs) st =
     (case addSymbol r st of
        Some (Returns st') \<Rightarrow> addSymbols rs st'
      | x \<Rightarrow> x)"



text \<open>
  Objects for the examples: symbols named \<open>A\<close> at most addresses, two named \<open>B (2)\<close>,
  an invalid one, two whose suffix is \<open>2 ^ 53\<close> and two with the empty name. The
  manager of the examples has made these objects and has nothing in its collection.
\<close>

definition exampleSymbol :: "string \<Rightarrow> string \<Rightarrow> bool \<Rightarrow> ref \<Rightarrow> symbol" where
  "exampleSymbol i n iv p =
     \<lparr>sid = i, name = n, source = ''tank.png'', latitude = 34, longitude = -119,
      isMovable = True, invalid = iv, placemark = p\<rparr>"

definition exampleHeap :: "ref \<Rightarrow> symbol" where
  "exampleHeap =
     (\<lambda>r. exampleSymbol ''a'' ''A'' False (r + 100))
       (3 := exampleSymbol ''b1'' ''B (2)'' False 103,
        4 := exampleSymbol ''b2'' ''B (2)'' False 104,
        5 := exampleSymbol ''c'' ''C'' True 105,
        7 := exampleSymbol ''e1'' ''E (9007199254740992)'' False 107,
        8 := exampleSymbol ''e2'' ''E (9007199254740992)'' False 108,
        9 := exampleSymbol ''n1'' [] False 109,
        10 := exampleSymbol ''n2'' [] False 110)"

definition emptyManager :: manager where
  "emptyManager =
     \<lparr>heap = exampleHeap, nextObj = 11, symbols = [], renderables = [], deselected = [],
      storage = Absent\<rparr>"


text \<open>
  What is looked at in a manager: the names and the placemarks of the symbols of the
  collection in their order, the placemarks of those that are not invalid, and the
  value of such an observation after a call that returns.
\<close>

definition names :: "manager \<Rightarrow> string list" where
  "names st = map (\<lambda>r. name (heap st r)) (symbols st)"



definition after :: "(manager \<Rightarrow> 'a) \<Rightarrow> manager result option \<Rightarrow> 'a option" where
  "after f x = (case x of Some (Returns st) \<Rightarrow> Some (f st) | _ \<Rightarrow> None)"



text \<open>
  Every symbol of the collection is an object that has been made: the addresses from
  \<open>nextObj\<close> on are those of the objects still to be made.
\<close>

definition allocated :: "manager \<Rightarrow> bool" where
  "allocated st \<longleftrightarrow> (\<forall>r\<in>set (symbols st). r < nextObj st)"

text \<open>
  The six persisted fields of the symbols of the collection, and of those that are not
  invalid.
\<close>

definition markers :: "manager \<Rightarrow> marker list" where
  "markers st = map (\<lambda>r. toMarker (heap st r)) (symbols st)"

definition validMarkers :: "manager \<Rightarrow> marker list" where
  "validMarkers st =
     map (\<lambda>r. toMarker (heap st r)) (filter (\<lambda>r. \<not> invalid (heap st r)) (symbols st))"

text \<open>
  Managers for the examples: the one that two calls of \<open>addSymbol\<close> with the symbols
  of the empty name make of the empty manager, one to be saved, with an invalid symbol
  in its collection, and one that has restored a symbol and still has its record in
  the store.
\<close>

definition unnamedManager :: manager where
  "unnamedManager =
     emptyManager
       \<lparr>symbols := [9, 10],
        heap := (exampleHeap(9 := (exampleHeap 9)\<lparr>name := []\<rparr>))
                  (10 := (exampleHeap 10)\<lparr>name := '' (2)''\<rparr>),
        renderables := [109, 110]\<rparr>"

definition savedManager :: manager where
  "savedManager = emptyManager\<lparr>symbols := [0, 5, 3], renderables := [100, 105, 103]\<rparr>"


text \<open>One turn of the loop of \<open>restoreSymbols\<close>.\<close>

definition restoreOne :: "marker \<Rightarrow> manager \<Rightarrow> manager result option" where
  "restoreOne a st =
     (let pos = \<lparr>p_latitude = m_latitude a, p_longitude = m_longitude a, p_altitude = 0\<rparr>;
          ps = \<lparr>a_id = m_id a, a_name = m_name a, a_imageSource = m_source a,
                a_isMovable = m_isMovable a\<rparr>;
          (symbol, st1) = TacticalSymbol pos ps st
      in addSymbol symbol st1)"

text \<open>
  The \<open>do ... while\<close> loop of \<open>generateUniqueName\<close>, left to itself for at most \<open>n\<close>
  runs of its body: \<open>None\<close> when it is still running after them.
\<close>

fun uniqueLoopWithin ::
  "nat \<Rightarrow> (ref \<Rightarrow> symbol) \<Rightarrow> ref list \<Rightarrow> ref \<Rightarrow> string \<Rightarrow> string result option" where
  "uniqueLoopWithin 0 h syms symbol uniqueName = None"
| "uniqueLoopWithin (Suc n) h syms symbol uniqueName =
     (case scanOthers h symbol uniqueName syms of
        Unique u \<Rightarrow> Some (Returns u)
      | Collided u \<Rightarrow> uniqueLoopWithin n h syms symbol u
      | Unknown \<Rightarrow> Some Inexact)"

text \<open>
  The sequence number of a name: the number of its suffix, and \<open>1\<close> for a name that
  has none (the first duplicate is number two).
\<close>

definition sequenceNo :: "string \<Rightarrow> nat" where
  "sequenceNo u = (case matchSuffix u of Some (front, ds) \<Rightarrow> parseInt10 ds | None \<Rightarrow> 1)"

text \<open>
  A name whose suffix, when it has one, is a number below \<open>MAX_EXACT\<close>: adding one to
  it is exact.
\<close>

definition exact :: "string \<Rightarrow> bool" where
  "exact u \<longleftrightarrow>
     (case matchSuffix u of Some (front, ds) \<Rightarrow> parseInt10 ds < MAX_EXACT | None \<Rightarrow> True)"

text \<open>The names of the symbols of the array other than the symbol itself.\<close>

definition otherNames :: "(ref \<Rightarrow> symbol) \<Rightarrow> ref list \<Rightarrow> ref \<Rightarrow> string set" where
  "otherNames h syms symbol = (\<lambda>x. name (h x)) ` (set syms - {symbol})"

section \<open>Properties\<close>

subsection \<open>Finding a symbol\<close>

text \<open>
  The loop of \<open>findSymbol\<close>, had it been given the length of the array, returns the
  first symbol of the array with the identifier, and nothing when there is none.
\<close>

lemma findFrom_drop:
  "findFrom st ident i (length (symbols st)) =
     find (\<lambda>r. sid (heap st r) = ident) (drop i (symbols st))"
proof (induction st ident i "length (symbols st)" rule: findFrom.induct)
  case (1 st ident i)
  show ?case
  proof (cases "i < length (symbols st)")
    case True
    then have d: "drop i (symbols st) = symbols st ! i # drop (i + 1) (symbols st)"
      by (simp add: Cons_nth_drop_Suc)
    show ?thesis
      using True 1 by (subst findFrom.simps) (simp add: d)
  next
    case False
    then show ?thesis by (subst findFrom.simps) simp
  qed
qed

text \<open>
  C4. The claim: for every collection and every identifier \<open>findSymbol\<close> returns the
  first symbol with that identifier, or \<open>null\<close>, and never throws. The program calls
  the number \<open>this.symbols.length\<close> as a function before it looks at any symbol, so
  every call of \<open>findSymbol\<close> throws a \<open>TypeError\<close>.
\<close>

theorem findSymbol_throws: "findSymbol ident st = Inl TypeError"
  by (simp add: findSymbol_def call_def observable_length_def)


subsection \<open>Reorders\<close>

lemma onChange_moved: "moved c \<noteq> None \<Longrightarrow> onChange c st = Some (Returns st)"
  by (auto simp: onChange_def)

text \<open>
  C6. A change record whose \<open>moved\<close> is set changes nothing: after the subscriber has
  gone through records that all are moved ones, the manager is in the state it was in,
  with the same renderables in its layer, the same name in every symbol and no further
  call of \<open>doDeselect\<close>.
\<close>

theorem moved_changes_ignored:
  "\<forall>c\<in>set changes. moved c \<noteq> None \<Longrightarrow> subscriber changes st = Some (Returns st)"
  by (induction changes) (simp_all add: onChange_moved)

theorem moved_changes_ignored_witness:
  "subscriber [\<lparr>status = Deleted, cvalue = 0, moved = Some 1\<rparr>,
               \<lparr>status = Added, cvalue = 0, moved = Some 0\<rparr>] emptyManager
     = Some (Returns emptyManager)"
  using moved_changes_ignored
    [of "[\<lparr>status = Deleted, cvalue = 0, moved = Some 1\<rparr>,
          \<lparr>status = Added, cvalue = 0, moved = Some 0\<rparr>]" emptyManager]
  by simp


subsection \<open>Removing a symbol\<close>

lemma subscriber_deleted:
  "\<exists>st'. subscriber (map (\<lambda>x. \<lparr>status = Deleted, cvalue = x, moved = None\<rparr>) rs) st
            = Some (Returns st')
         \<and> symbols st' = symbols st \<and> heap st' = heap st \<and> storage st' = storage st"
proof (induction rs arbitrary: st)
  case Nil
  show ?case by simp
next
  case (Cons a rs)
  obtain st' where
    "subscriber (map (\<lambda>x. \<lparr>status = Deleted, cvalue = x, moved = None\<rparr>) rs)
       (doRemoveSymbolFromLayer a st) = Some (Returns st')"
    "symbols st' = symbols (doRemoveSymbolFromLayer a st)"
    "heap st' = heap (doRemoveSymbolFromLayer a st)"
    "storage st' = storage (doRemoveSymbolFromLayer a st)"
    using Cons.IH [of "doRemoveSymbolFromLayer a st"] by blast
  then show ?case
    by (simp add: onChange_def) (simp add: doRemoveSymbolFromLayer_def)
qed

lemma removeSymbol_returns:
  "\<exists>st'. removeSymbol symbol st = Some (Returns st')
         \<and> symbols st' = filter (\<lambda>x. x \<noteq> symbol) (symbols st) \<and> heap st' = heap st"
proof (cases "filter (\<lambda>x. x = symbol) (symbols st) = []")
  case True
  then have "filter (\<lambda>x. x \<noteq> symbol) (symbols st) = symbols st"
    by (induction "symbols st") (auto simp: filter_empty_conv filter_id_conv)
  with True show ?thesis by (simp add: removeSymbol_def)
next
  case False
  obtain st' where
    "subscriber (map (\<lambda>x. \<lparr>status = Deleted, cvalue = x, moved = None\<rparr>)
        (filter (\<lambda>x. x = symbol) (symbols st)))
        (st\<lparr>symbols := filter (\<lambda>x. x \<noteq> symbol) (symbols st)\<rparr>) = Some (Returns st')"
    "symbols st' = symbols (st\<lparr>symbols := filter (\<lambda>x. x \<noteq> symbol) (symbols st)\<rparr>)"
    "heap st' = heap (st\<lparr>symbols := filter (\<lambda>x. x \<noteq> symbol) (symbols st)\<rparr>)"
    using subscriber_deleted by blast
  with False show ?thesis by (simp add: removeSymbol_def)
qed

lemma removeSymbol_absent:
  "symbol \<notin> set (symbols st) \<Longrightarrow> removeSymbol symbol st = Some (Returns st)"
  by (simp add: removeSymbol_def filter_empty_conv)

text \<open>
  C9. \<open>removeSymbol\<close> with a symbol that is not in the collection returns and leaves
  the manager as it was: the collection, the layer and every symbol. Every call of
  \<open>removeSymbol\<close> returns, and a second call with the same symbol is such a call.
\<close>

theorem removeSymbol_absent_noop:
  "(symbol \<notin> set (symbols st) \<longrightarrow> removeSymbol symbol st = Some (Returns st))
   \<and> (\<exists>st'. removeSymbol symbol st = Some (Returns st')
             \<and> removeSymbol symbol st' = Some (Returns st'))"
proof -
  obtain st' where r: "removeSymbol symbol st = Some (Returns st')"
    and s: "symbols st' = filter (\<lambda>x. x \<noteq> symbol) (symbols st)"
    using removeSymbol_returns by blast
  from s have "symbol \<notin> set (symbols st')" by simp
  then have "removeSymbol symbol st' = Some (Returns st')" by (rule removeSymbol_absent)
  with r show ?thesis by (auto simp: removeSymbol_absent)
qed

theorem removeSymbol_absent_noop_witness:
  "7 \<notin> set (symbols emptyManager)
   \<and> removeSymbol 7 emptyManager = Some (Returns emptyManager)"
  using removeSymbol_absent_noop [of 7 emptyManager]
  by (simp add: emptyManager_def)

subsection \<open>Unique names\<close>


lemma scanOthers_Collided:
  "scanOthers h s u syms = Collided v \<Longrightarrow>
     rename u = Some v \<and> (\<exists>x\<in>set syms. x \<noteq> s \<and> name (h x) = u)"
  by (induction syms) (auto split: if_splits option.splits)

lemma scanOthers_free:
  "\<forall>x\<in>set syms. x \<noteq> s \<longrightarrow> name (h x) \<noteq> u \<Longrightarrow> scanOthers h s u syms = Unique u"
  by (induction syms) auto

lemma scanOthers_taken:
  "\<exists>x\<in>set syms. x \<noteq> s \<and> name (h x) = u \<Longrightarrow>
     scanOthers h s u syms = (case rename u of Some v \<Rightarrow> Collided v | None \<Rightarrow> Unknown)"
  by (induction syms) auto




lemma addSymbol_Returns:
  assumes "addSymbol r st = Some (Returns st')"
  shows "\<exists>v. uniqueLoop (heap st) (symbols st @ [r]) r (trim (name (heap st r)))
               = Some (Returns v)
            \<and> heap st' = (heap st)(r := (heap st r)\<lparr>name := v\<rparr>)
            \<and> symbols st' = symbols st @ [r]
            \<and> renderables st' = renderables st @ [placemark (heap st r)]
            \<and> deselected st' = deselected st
            \<and> storage st' = storage st
            \<and> nextObj st' = nextObj st"
  using assms
  by (auto simp: addSymbol_def onChange_def doEnsureUniqueName_def generateUniqueName_def
      doAddSymbolToLayer_def split: option.splits result.splits)



lemma trim_A: "trim ''A'' = ''A''"
  by (simp add: trim_def isSpace_def)


lemma rename_A: "rename ''A'' = Some ''A (2)''"
  by (simp add: rename_def matchSuffix_def)

lemma rename_A2: "rename ''A (2)'' = Some ''A (3)''"
  by (simp add: rename_def matchSuffix_def isDigit_def nextSuffix_def parseInt10_def
      MAX_EXACT_def numberToString.simps)



subsection \<open>The layer\<close>










subsection \<open>Restoring\<close>




lemma uniqueLoop_free:
  "\<forall>x\<in>set syms. x \<noteq> s \<longrightarrow> name (h x) \<noteq> u \<Longrightarrow> uniqueLoop h syms s u = Some (Returns u)"
  by (subst uniqueLoop.simps) (simp add: scanOthers_free)

lemma addSymbol_eq:
  "uniqueLoop (heap st) (symbols st @ [r]) r (trim (name (heap st r))) = Some (Returns v) \<Longrightarrow>
     addSymbol r st =
       Some (Returns (st\<lparr>symbols := symbols st @ [r],
                          heap := (heap st)(r := (heap st r)\<lparr>name := v\<rparr>),
                          renderables := renderables st @ [placemark (heap st r)]\<rparr>))"
  by (simp add: addSymbol_def onChange_def doEnsureUniqueName_def generateUniqueName_def
      doAddSymbolToLayer_def)

lemma restoreLoop_Cons:
  "restoreLoop (a # array) st =
     (case restoreOne a st of Some (Returns st2) \<Rightarrow> restoreLoop array st2 | r \<Rightarrow> r)"
  by (simp add: restoreOne_def Let_def split: prod.splits)

lemma restoreOne_Returns:
  assumes "restoreOne a st = Some (Returns st')" and "allocated st"
  shows "symbols st' = symbols st @ [nextObj st]
     \<and> nextObj st' = nextObj st + 2
     \<and> (\<forall>x. x \<noteq> nextObj st \<longrightarrow> heap st' x = heap st x)
     \<and> sid (heap st' (nextObj st)) = m_id a
     \<and> toMarker (heap st' (nextObj st)) = a\<lparr>m_name := name (heap st' (nextObj st))\<rparr>
     \<and> storage st' = storage st
     \<and> allocated st'"
proof -
  let ?pos = "\<lparr>p_latitude = m_latitude a, p_longitude = m_longitude a, p_altitude = 0\<rparr>"
  let ?ps = "\<lparr>a_id = m_id a, a_name = m_name a, a_imageSource = m_source a,
                a_isMovable = m_isMovable a\<rparr>"
  let ?st1 = "snd (TacticalSymbol ?pos ?ps st)"
  have r: "fst (TacticalSymbol ?pos ?ps st) = nextObj st"
    by (simp add: TacticalSymbol_def Let_def)
  from assms(1) have "addSymbol (nextObj st) ?st1 = Some (Returns st')"
    by (simp add: restoreOne_def TacticalSymbol_def Let_def)
  from addSymbol_Returns [OF this] obtain v where
    h: "heap st' = (heap ?st1)(nextObj st := (heap ?st1 (nextObj st))\<lparr>name := v\<rparr>)"
    and s: "symbols st' = symbols ?st1 @ [nextObj st]"
    and t: "storage st' = storage ?st1" and n: "nextObj st' = nextObj ?st1"
    by blast
  from assms(2) have "allocated st'"
    by (auto simp: allocated_def s n TacticalSymbol_def Let_def)
  with h s t n show ?thesis
    by (simp add: TacticalSymbol_def Let_def toMarker_def)
qed

lemma restoreOne_fresh_name:
  assumes "allocated st" and "m_name a \<notin> set (names st)" and "trim (m_name a) = m_name a"
  shows "\<exists>st'. restoreOne a st = Some (Returns st')
            \<and> name (heap st' (nextObj st)) = m_name a"
proof -
  let ?pos = "\<lparr>p_latitude = m_latitude a, p_longitude = m_longitude a, p_altitude = 0\<rparr>"
  let ?ps = "\<lparr>a_id = m_id a, a_name = m_name a, a_imageSource = m_source a,
                a_isMovable = m_isMovable a\<rparr>"
  let ?st1 = "snd (TacticalSymbol ?pos ?ps st)"
  let ?r = "nextObj st"
  have n1: "name (heap ?st1 ?r) = m_name a"
    by (simp add: TacticalSymbol_def Let_def)
  have others: "\<forall>x\<in>set (symbols ?st1 @ [?r]). x \<noteq> ?r \<longrightarrow> name (heap ?st1 x) \<noteq> m_name a"
    using assms(1,2) by (auto simp: TacticalSymbol_def Let_def allocated_def names_def image_iff)
  have "uniqueLoop (heap ?st1) (symbols ?st1 @ [?r]) ?r (trim (name (heap ?st1 ?r)))
          = Some (Returns (m_name a))"
    using uniqueLoop_free [OF others] by (simp add: n1 assms(3))
  from addSymbol_eq [OF this] show ?thesis
    by (simp add: restoreOne_def TacticalSymbol_def Let_def)
qed


lemma trim_empty: "trim [] = []"
  by (simp add: trim_def)

lemma trim_2: "trim '' (2)'' = ''(2)''"
  by (simp add: trim_def isSpace_def)

lemma rename_empty: "rename [] = Some '' (2)''"
  by (simp add: rename_def matchSuffix_def)

lemma trim_B2: "trim ''B (2)'' = ''B (2)''"
  by (simp add: trim_def isSpace_def)



lemma restoreLoop_roundtrip:
  "allocated st \<Longrightarrow> distinct (map m_name array) \<Longrightarrow>
   set (names st) \<inter> set (map m_name array) = {} \<Longrightarrow>
   \<forall>a\<in>set array. trim (m_name a) = m_name a \<Longrightarrow>
     \<exists>st'. restoreLoop array st = Some (Returns st') \<and> markers st' = markers st @ array"
proof (induction array arbitrary: st)
  case Nil
  then show ?case by simp
next
  case (Cons a array)
  from Cons.prems have fresh: "m_name a \<notin> set (names st)" and tr: "trim (m_name a) = m_name a"
    by auto
  from restoreOne_fresh_name [OF Cons.prems(1) fresh tr] obtain st2 where
    one: "restoreOne a st = Some (Returns st2)"
    and nm: "name (heap st2 (nextObj st)) = m_name a"
    by blast
  note f = restoreOne_Returns [OF one Cons.prems(1)]
  have old: "heap st2 x = heap st x" if "x \<in> set (symbols st)" for x
    using f that Cons.prems(1) by (auto simp: allocated_def)
  have m2: "markers st2 = markers st @ [a]"
    using f nm by (simp add: markers_def old)
  have n2: "names st2 = names st @ [m_name a]"
    using f nm by (simp add: names_def old)
  from f have a2: "allocated st2" by simp
  have "\<exists>st'. restoreLoop array st2 = Some (Returns st') \<and> markers st' = markers st2 @ array"
  proof (rule Cons.IH [OF a2])
    show "distinct (map m_name array)" using Cons.prems(2) by simp
    show "set (names st2) \<inter> set (map m_name array) = {}"
      using Cons.prems(2,3) by (auto simp: n2)
    show "\<forall>a\<in>set array. trim (m_name a) = m_name a" using Cons.prems(4) by simp
  qed
  then show ?case
    using one by (simp add: restoreLoop_Cons m2 del: restoreLoop.simps)
qed

text \<open>
  C7, as the program has it. Let the names of the symbols of a collection that are not
  invalid be different from each other and without white space at their ends. Then
  \<open>restoreSymbols\<close>, on a manager whose collection is empty and whose store holds what
  \<open>saveSymbols\<close> wrote, returns, and the six fields of the symbols of its collection
  are those of the symbols that were not invalid, in their order.
\<close>

theorem save_restore_roundtrip:
  assumes "symbols fresh = []" and "storage fresh = storage (saveSymbols st)"
    and "distinct (map m_name (validMarkers st))"
    and "\<forall>a\<in>set (validMarkers st). trim (m_name a) = m_name a"
  shows "\<exists>st'. restoreSymbols fresh = Some (Returns st') \<and> markers st' = validMarkers st"
proof -
  have s: "storage fresh = Records (validMarkers st)"
    using assms(2) by (simp add: saveSymbols_def validMarkers_def)
  have a: "allocated fresh" using assms(1) by (simp add: allocated_def)
  have e: "markers fresh = []" "names fresh = []"
    using assms(1) by (simp_all add: markers_def names_def)
  show ?thesis
  proof (cases "validMarkers st = []")
    case True
    then have "restoreSymbols fresh = Some (Returns fresh)"
      by (simp add: restoreSymbols_def s)
    with True e show ?thesis by simp
  next
    case False
    from restoreLoop_roundtrip [OF a assms(3) _ assms(4)] e
    obtain st' where "restoreLoop (validMarkers st) fresh = Some (Returns st')"
      "markers st' = validMarkers st"
      by auto
    with False show ?thesis by (simp add: restoreSymbols_def s)
  qed
qed

theorem save_restore_roundtrip_witness:
  "\<exists>st'. restoreSymbols (emptyManager\<lparr>storage := storage (saveSymbols savedManager)\<rparr>)
           = Some (Returns st')
     \<and> markers st' = validMarkers savedManager
     \<and> map m_name (validMarkers savedManager) = [''A'', ''B (2)'']"
proof -
  let ?fresh = "emptyManager\<lparr>storage := storage (saveSymbols savedManager)\<rparr>"
  have n: "map m_name (validMarkers savedManager) = [''A'', ''B (2)'']"
    by (simp add: validMarkers_def savedManager_def emptyManager_def exampleHeap_def
        exampleSymbol_def toMarker_def)
  have 1: "symbols ?fresh = []" by (simp add: emptyManager_def)
  have 2: "storage ?fresh = storage (saveSymbols savedManager)" by simp
  have 3: "distinct (map m_name (validMarkers savedManager))" by (simp add: n)
  have "\<forall>x\<in>set (map m_name (validMarkers savedManager)). trim x = x"
    by (simp add: n trim_A trim_B2)
  then have 4: "\<forall>a\<in>set (validMarkers savedManager). trim (m_name a) = m_name a"
    by simp
  from save_restore_roundtrip [OF 1 2 3 4] obtain st' where
    "restoreSymbols ?fresh = Some (Returns st')" "markers st' = validMarkers savedManager"
    by (elim exE conjE)
  with n show ?thesis by (intro exI [of _ st'] conjI)
qed

text \<open>
  C7, as it is claimed, holds for every collection. The restored symbols go through
  \<open>addSymbol\<close>, which trims their names and makes them unique. Two symbols of the empty
  name, added to an empty collection, are named with the empty name and with \<open>(2)\<close>
  after a space; saved and restored, the second one has the name \<open>(2)\<close> without the
  space.
\<close>

theorem unnamed_symbol_not_restored:
  "addSymbols [9, 10] emptyManager = Some (Returns unnamedManager)
   \<and> map m_name (validMarkers unnamedManager) = [[], '' (2)'']
   \<and> after names
        (restoreSymbols (emptyManager\<lparr>storage := storage (saveSymbols unnamedManager)\<rparr>))
       = Some [[], ''(2)'']
   \<and> after markers
        (restoreSymbols (emptyManager\<lparr>storage := storage (saveSymbols unnamedManager)\<rparr>))
       \<noteq> Some (validMarkers unnamedManager)"
  by (simp add: after_def names_def markers_def validMarkers_def unnamedManager_def
      saveSymbols_def restoreSymbols_def emptyManager_def TacticalSymbol_def toMarker_def
      addSymbol_def onChange_def doEnsureUniqueName_def generateUniqueName_def
      doAddSymbolToLayer_def uniqueLoop.simps exampleHeap_def exampleSymbol_def
      trim_empty trim_2 rename_empty)

subsection \<open>Suffixes\<close>

lemma digit_cases: "d < 10 \<Longrightarrow> d \<in> {0, 1, 2, 3, 4, 5, 6, 7, 8, 9 :: nat}"
  by auto

lemma digit_value: "d < 10 \<Longrightarrow> of_char (''0123456789'' ! d) - 48 = (d::nat)"
  using digit_cases [of d] by auto

lemma digit_isDigit: "d < 10 \<Longrightarrow> isDigit (''0123456789'' ! d)"
  using digit_cases [of d] by (auto simp: isDigit_def)

lemma parseInt10_snoc: "parseInt10 (ds @ [c]) = 10 * parseInt10 ds + (of_char c - 48)"
  by (simp add: parseInt10_def)

lemma parseInt10_numberToString: "parseInt10 (numberToString n) = n"
proof (induction n rule: numberToString.induct)
  case (1 n)
  show ?case
  proof (cases "n < 10")
    case True
    then show ?thesis
      by (subst numberToString.simps) (simp add: parseInt10_def digit_value)
  next
    case False
    have "n mod 10 < 10" by simp
    with False 1 show ?thesis
      by (subst numberToString.simps) (simp add: parseInt10_snoc digit_value)
  qed
qed

lemma numberToString_digits: "numberToString n \<noteq> [] \<and> (\<forall>c\<in>set (numberToString n). isDigit c)"
proof (induction n rule: numberToString.induct)
  case (1 n)
  show ?case
  proof (cases "n < 10")
    case True
    then show ?thesis
      by (subst (1 2) numberToString.simps) (simp add: digit_isDigit)
  next
    case False
    have "n mod 10 < 10" by simp
    with False 1 show ?thesis
      by (subst (1 2) numberToString.simps) (simp add: digit_isDigit)
  qed
qed

lemma not_digit_paren: "\<not> isDigit CHR ''(''"
  by (simp add: isDigit_def)

lemma matchSuffix_canonical:
  assumes "ds \<noteq> []" and "\<forall>c\<in>set ds. isDigit c"
  shows "matchSuffix (front @ ''('' @ ds @ '')'') = Some (front, ds)"
proof -
  have b: "butlast (front @ ''('' @ ds @ '')'') = front @ ''('' @ ds"
    by (simp add: butlast_append)
  have r: "rev (front @ ''('' @ ds) = rev ds @ CHR ''('' # rev front"
    by simp
  have t: "takeWhile isDigit (rev ds @ CHR ''('' # rev front) = rev ds"
    using assms(2) by (subst takeWhile_append2) (auto simp: not_digit_paren)
  have d: "dropWhile isDigit (rev ds @ CHR ''('' # rev front) = CHR ''('' # rev front"
    using assms(2) by (subst dropWhile_append2) (auto simp: not_digit_paren)
  show ?thesis
    unfolding matchSuffix_def b r t d Let_def using assms(1) by simp
qed

text \<open>
  What a match of the regular expression is, and what \<open>generateUniqueName\<close> makes of
  a name that another symbol has: a name that does not end in a suffix gets \<open>(2)\<close>,
  and the number of a suffix below \<open>MAX_EXACT\<close> is replaced by the next number.
\<close>

lemma matchSuffix_Some:
  assumes "matchSuffix u = Some (front, ds)"
  shows "u = front @ ''('' @ ds @ '')'' \<and> ds \<noteq> [] \<and> (\<forall>c\<in>set ds. isDigit c)"
proof -
  define body where "body = butlast u"
  define fr where "fr = rev (dropWhile isDigit (rev body))"
  from assms have u: "u \<noteq> []" "last u = CHR '')''"
    and nz: "ds \<noteq> []" "fr \<noteq> []" "last fr = CHR ''(''"
    and eq: "front = butlast fr" "ds = rev (takeWhile isDigit (rev body))"
    by (auto simp: matchSuffix_def Let_def body_def fr_def split: if_splits)
  have "fr @ ds = rev (takeWhile isDigit (rev body) @ dropWhile isDigit (rev body))"
    unfolding fr_def eq(2) by (simp only: rev_append)
  also have "\<dots> = rev (rev body)"
    by (simp only: takeWhile_dropWhile_id)
  finally have body: "body = fr @ ds" by simp
  have fr: "fr = front @ ''(''"
    using nz(2,3) eq(1) append_butlast_last_id [of fr] by simp
  have "u = body @ [last u]" using u(1) by (simp add: body_def)
  also have "\<dots> = front @ ''('' @ ds @ '')''"
    unfolding body fr u(2) by simp
  finally have "u = front @ ''('' @ ds @ '')''" .
  moreover have "\<forall>c\<in>set ds. isDigit c"
    unfolding eq(2) using set_takeWhileD [of _ isDigit "rev body"] by auto
  ultimately show ?thesis using nz(1) by simp
qed

lemma rename_plain: "matchSuffix u = None \<Longrightarrow> rename u = Some (u @ '' (2)'')"
  by (simp add: rename_def)

lemma rename_suffix:
  "matchSuffix u = Some (front, ds) \<Longrightarrow> parseInt10 ds < MAX_EXACT \<Longrightarrow>
     rename u = Some (front @ ''('' @ numberToString (parseInt10 ds + 1) @ '')'')"
  by (simp add: rename_def nextSuffix_def)

lemma rename_next:
  assumes "exact u"
  shows "\<exists>v. rename u = Some v \<and> sequenceNo v = sequenceNo u + 1"
proof (cases "matchSuffix u")
  case None
  have "matchSuffix ((u @ '' '') @ ''('' @ ''2'' @ '')'') = Some (u @ '' '', ''2'')"
    by (rule matchSuffix_canonical) (simp_all add: isDigit_def)
  then have "matchSuffix (u @ '' (2)'') = Some (u @ '' '', ''2'')" by simp
  then have "sequenceNo (u @ '' (2)'') = 2"
    by (simp add: sequenceNo_def parseInt10_def)
  with None show ?thesis by (simp add: rename_plain sequenceNo_def)
next
  case (Some p)
  obtain front ds where p: "p = (front, ds)" by (cases p)
  with Some assms have lt: "parseInt10 ds < MAX_EXACT" by (simp add: exact_def)
  let ?n = "numberToString (parseInt10 ds + 1)"
  have "matchSuffix (front @ ''('' @ ?n @ '')'') = Some (front, ?n)"
    using numberToString_digits [of "parseInt10 ds + 1"]
    by (intro matchSuffix_canonical) simp_all
  then have "sequenceNo (front @ ''('' @ ?n @ '')'') = parseInt10 ds + 1"
    by (simp add: sequenceNo_def parseInt10_numberToString)
  with Some p lt show ?thesis by (simp add: rename_suffix sequenceNo_def)
qed

lemma trim_E: "trim ''E (9007199254740992)'' = ''E (9007199254740992)''"
  by (simp add: trim_def isSpace_def)

lemma rename_E: "rename ''E (9007199254740992)'' = Some ''E (9007199254740992)''"
  by (simp add: rename_def matchSuffix_def isDigit_def nextSuffix_def parseInt10_def
      MAX_EXACT_def numberToString.simps)

lemma rename_B2: "rename ''B (2)'' = Some ''B (3)''"
  by (simp add: rename_def matchSuffix_def isDigit_def nextSuffix_def parseInt10_def
      MAX_EXACT_def numberToString.simps)

text \<open>
  Three symbols named \<open>A\<close>, added to an empty collection, get the names \<open>A\<close>, \<open>A (2)\<close>
  and \<open>A (3)\<close>; two symbols named \<open>B (2)\<close> get the names \<open>B (2)\<close> and \<open>B (3)\<close>.
\<close>

lemma suffix_progression_examples:
  "after names (addSymbols [0, 1, 2] emptyManager) = Some [''A'', ''A (2)'', ''A (3)'']
   \<and> after names (addSymbols [3, 4] emptyManager) = Some [''B (2)'', ''B (3)'']"
  by (simp add: after_def names_def emptyManager_def addSymbol_def onChange_def
      doEnsureUniqueName_def generateUniqueName_def doAddSymbolToLayer_def
      uniqueLoop.simps exampleHeap_def exampleSymbol_def trim_A trim_B2 rename_A rename_A2
      rename_B2)

text \<open>
  C3. The claim: a name that ends in a suffix and that another symbol has gets the
  number of its suffix incremented by one, again and again until it is unique. The
  program adds one in double arithmetic, where \<open>2 ^ 53 + 1\<close> is \<open>2 ^ 53\<close>: the name
  \<open>E (9007199254740992)\<close> is replaced by itself.
\<close>

theorem suffix_not_incremented:
  "matchSuffix ''E (9007199254740992)'' = Some (''E '', ''9007199254740992'')
   \<and> parseInt10 ''9007199254740992'' = 2 ^ 53
   \<and> rename ''E (9007199254740992)'' = Some ''E (9007199254740992)''"
  by (simp add: rename_def matchSuffix_def isDigit_def nextSuffix_def parseInt10_def
      MAX_EXACT_def numberToString.simps)


subsection \<open>The number of runs of the loop\<close>

lemma scanOthers_otherNames:
  "scanOthers h s u syms =
     (if u \<in> otherNames h syms s
      then (case rename u of Some v \<Rightarrow> Collided v | None \<Rightarrow> Unknown)
      else Unique u)"
proof (cases "u \<in> otherNames h syms s")
  case True
  then have "\<exists>x\<in>set syms. x \<noteq> s \<and> name (h x) = u" by (auto simp: otherNames_def)
  from scanOthers_taken [OF this] True show ?thesis by simp
next
  case False
  then have "\<forall>x\<in>set syms. x \<noteq> s \<longrightarrow> name (h x) \<noteq> u" by (auto simp: otherNames_def)
  from scanOthers_free [OF this] False show ?thesis by simp
qed

lemma uniqueLoopWithin_mono:
  "uniqueLoopWithin k h syms s u = Some r \<Longrightarrow> k \<le> k' \<Longrightarrow>
     uniqueLoopWithin k' h syms s u = Some r"
proof (induction k arbitrary: k' u)
  case 0
  then show ?case by simp
next
  case (Suc k)
  from Suc.prems(2) obtain j where j: "k' = Suc j" "k \<le> j" by (cases k') auto
  show ?case
  proof (cases "scanOthers h s u syms")
    case (Collided v)
    with Suc.prems(1) have "uniqueLoopWithin k h syms s v = Some r" by simp
    from Suc.IH [OF this j(2)] Collided j(1) show ?thesis by simp
  qed (use Suc.prems(1) j(1) in auto)
qed

lemma uniqueLoopWithin_uniqueLoop:
  "uniqueLoopWithin k h syms s u = Some r \<Longrightarrow> uniqueLoop h syms s u = Some r"
proof (induction k arbitrary: u)
  case 0
  then show ?case by simp
next
  case (Suc k)
  show ?case
  proof (cases "scanOthers h s u syms")
    case (Collided v)
    with Suc.prems have "uniqueLoopWithin k h syms s v = Some r" by simp
    from Suc.IH [OF this] Collided show ?thesis
      by (subst uniqueLoop.simps) simp
  qed (use Suc.prems in \<open>subst uniqueLoop.simps, auto\<close>)+
qed

lemma uniqueLoopWithin_measure:
  assumes "\<forall>n\<in>otherNames h syms s. exact n"
  shows "card {n \<in> otherNames h syms s. sequenceNo u \<le> sequenceNo n} \<le> k \<Longrightarrow>
     \<exists>v. uniqueLoopWithin (Suc k) h syms s u = Some (Returns v)"
proof (induction k arbitrary: u)
  case 0
  have fin: "finite {n \<in> otherNames h syms s. sequenceNo u \<le> sequenceNo n}"
    by (simp add: otherNames_def)
  with 0 have "{n \<in> otherNames h syms s. sequenceNo u \<le> sequenceNo n} = {}" by simp
  then have "u \<notin> otherNames h syms s" by auto
  then show ?case by (simp add: scanOthers_otherNames)
next
  case (Suc k)
  show ?case
  proof (cases "u \<in> otherNames h syms s")
    case False
    then show ?thesis by (simp add: scanOthers_otherNames)
  next
    case True
    with assms have "exact u" by simp
    from rename_next [OF this] obtain v where
      v: "rename u = Some v" and sv: "sequenceNo v = sequenceNo u + 1"
      by blast
    let ?A = "{n \<in> otherNames h syms s. sequenceNo v \<le> sequenceNo n}"
    let ?B = "{n \<in> otherNames h syms s. sequenceNo u \<le> sequenceNo n}"
    have fin: "finite ?B" by (simp add: otherNames_def)
    have "?A \<subseteq> ?B" using sv by auto
    moreover have "u \<in> ?B" "u \<notin> ?A" using True sv by auto
    ultimately have "?A \<subset> ?B" by blast
    with fin have "card ?A < card ?B" by (rule psubset_card_mono)
    with Suc.prems have "card ?A \<le> k" by simp
    from Suc.IH [OF this] obtain w where
      "uniqueLoopWithin (Suc k) h syms s v = Some (Returns w)" by blast
    moreover have "scanOthers h s u syms = Collided v"
      using True v by (simp add: scanOthers_otherNames)
    then have "uniqueLoopWithin (Suc (Suc k)) h syms s u = uniqueLoopWithin (Suc k) h syms s v"
      by (subst uniqueLoopWithin.simps(2)) simp
    ultimately show ?thesis by simp
  qed
qed

text \<open>
  When the names of the other symbols are exact, the loop of \<open>generateUniqueName\<close> is
  left with a name after at most as many runs of its body as there are names of other
  symbols, and one more: each run that finds the name taken goes on with a name of the
  next sequence number.
\<close>

lemma uniqueLoop_bounded:
  assumes "\<forall>n\<in>otherNames h syms s. exact n"
  shows "\<exists>v. uniqueLoopWithin (card (otherNames h syms s) + 1) h syms s u = Some (Returns v)
            \<and> uniqueLoop h syms s u = Some (Returns v)"
proof -
  let ?S = "otherNames h syms s"
  have fin: "finite ?S" by (simp add: otherNames_def)
  have "card {n \<in> ?S. sequenceNo u \<le> sequenceNo n} \<le> card ?S"
    using fin by (intro card_mono) auto
  from uniqueLoopWithin_measure [OF assms this] obtain v where
    v: "uniqueLoopWithin (Suc (card ?S)) h syms s u = Some (Returns v)" by blast
  from uniqueLoopWithin_uniqueLoop [OF v] v show ?thesis by simp
qed

lemma addSymbol_returns:
  assumes "\<forall>n\<in>otherNames (heap st) (symbols st) r. exact n"
  shows "\<exists>st'. addSymbol r st = Some (Returns st')"
proof -
  have "otherNames (heap st) (symbols st @ [r]) r = otherNames (heap st) (symbols st) r"
    by (auto simp: otherNames_def)
  with assms have "\<forall>n\<in>otherNames (heap st) (symbols st @ [r]) r. exact n" by simp
  from uniqueLoop_bounded [OF this] obtain v where
    "uniqueLoop (heap st) (symbols st @ [r]) r (trim (name (heap st r))) = Some (Returns v)"
    by blast
  from addSymbol_eq [OF this] show ?thesis by blast
qed

text \<open>A run of the body that leaves the name as it was is followed by the same run.\<close>

lemma uniqueLoop_spins:
  assumes "scanOthers h s u syms = Collided u"
  shows "uniqueLoop h syms s u = None"
proof (rule ccontr)
  assume "uniqueLoop h syms s u \<noteq> None"
  then obtain y where y: "uniqueLoop h syms s u = Some y" by auto
  have "scanOthers h s u syms \<noteq> Collided u"
  proof (rule uniqueLoop.raw_induct
      [where P = "\<lambda>h syms s u y. scanOthers h s u syms \<noteq> Collided u", OF _ y])
    fix f h syms s u y
    assume IH: "\<And>h syms s u y. f h syms s u = Some y \<Longrightarrow> scanOthers h s u syms \<noteq> Collided u"
      and step: "(case scanOthers h s u syms of
          Unique u \<Rightarrow> Some (Returns u)
        | Collided u \<Rightarrow> f h syms s u
        | Unknown \<Rightarrow> Some Inexact) = Some y"
    show "scanOthers h s u syms \<noteq> Collided u"
    proof
      assume c: "scanOthers h s u syms = Collided u"
      with step have "f h syms s u = Some y" by simp
      from IH [OF this] c show False by simp
    qed
  qed
  with assms show False by simp
qed

text \<open>
  C8. The claim: the loop of \<open>generateUniqueName\<close> ends for every name and every
  collection. With a symbol named \<open>E (9007199254740992)\<close> in the collection, adding
  another symbol of that name never returns: the name is taken, the suffix stays what
  it was, and every run of the body is the first one again.
\<close>

theorem addSymbol_never_returns: "addSymbols [7, 8] emptyManager = None"
proof -
  let ?E = "''E (9007199254740992)''"
  have n7: "name (exampleHeap 7) = ?E" and n8: "name (exampleHeap 8) = ?E"
    by (simp_all add: exampleHeap_def exampleSymbol_def)
  have "uniqueLoop (heap emptyManager) (symbols emptyManager @ [7]) 7
          (trim (name (heap emptyManager 7))) = Some (Returns ?E)"
    using uniqueLoop_free [of "[7]" 7 exampleHeap ?E]
    by (simp add: emptyManager_def n7 trim_E)
  from addSymbol_eq [OF this] obtain st1 where
    a1: "addSymbol 7 emptyManager = Some (Returns st1)"
    and s1: "symbols st1 = [7]"
    and h1: "heap st1 = exampleHeap(7 := (exampleHeap 7)\<lparr>name := ?E\<rparr>)"
    by (simp add: emptyManager_def)
  have m7: "name (heap st1 7) = ?E" and m8: "name (heap st1 8) = ?E"
    by (simp_all add: h1 n8)
  have "scanOthers (heap st1) 8 ?E [7, 8] = Collided ?E"
    by (simp add: m7 rename_E)
  then have "uniqueLoop (heap st1) [7, 8] 8 ?E = None"
    by (rule uniqueLoop_spins)
  then have "addSymbol 8 st1 = None"
    by (simp add: addSymbol_def onChange_def doEnsureUniqueName_def generateUniqueName_def
        s1 m8 trim_E)
  with a1 show ?thesis by simp
qed

end
